theory Spec2Isabelle
  imports Complex_Main "HOL-Library.Sublist" "HOL-Library.Log_Nat" "HOL-Library.Multiset"
begin

section \<open>BudgetEditor: the three pipeline stages of \<^verbatim>\<open>budget_editor.py\<close>\<close>

text \<open>
  The development embeds \<^verbatim>\<open>filter_transactions\<close>, \<^verbatim>\<open>add_employment_income\<close> and
  \<^verbatim>\<open>compute_summary\<close>. The data frame is the list of its rows, in order; the three
  columns the program reads are the fields of a row. A cell that pandas holds as
  \<^verbatim>\<open>NaN\<close> or \<^verbatim>\<open>NaT\<close> is \<open>None\<close>.

  Modelling conventions:
  \<^item> A string is a sequence of code points; the 8-bit \<open>char\<close> covers U+0000 to U+00FF.
  \<^item> pandas holds a column with a dtype. The dtype of the \<^verbatim>\<open>Description\<close> column decides
    whether the \<^verbatim>\<open>.str\<close> accessor accepts it, and the dtype of the \<^verbatim>\<open>Amount\<close> column
    decides the arithmetic of its sums: both are arguments of the functions that read
    them.
  \<^item> A finite float is the rational number it stands for. Every float operation rounds
    the exact result to binary64 (to nearest, ties to even) and gives an infinity beyond
    the largest double; an int64 operation wraps around.
  \<^item> A raised exception is the \<open>Inl\<close> of a sum type.
\<close>

subsection \<open>Rows and frames\<close>

record transaction =
  date :: "string option"
  description :: "string option"
  amount :: "rat option"

type_synonym dataframe = "transaction list"

datatype error = ReError | AttributeError

text \<open>
  The dtype of a column: \<^verbatim>\<open>object\<close> for a column of strings with missing cells, or a
  numeric dtype. \<^verbatim>\<open>read_csv\<close> infers it: a \<^verbatim>\<open>Description\<close> column in which every cell of
  a file with rows is blank is read as \<^verbatim>\<open>float64\<close>, one of whole numbers as \<^verbatim>\<open>int64\<close>.
  Boolean indexing keeps the dtype of a column.
\<close>

datatype numeric_dtype = float64 | int64

datatype dtype = object_dtype | numeric numeric_dtype

subsection \<open>Regular-expression search, as \<^verbatim>\<open>Series.str.contains\<close> uses it\<close>

text \<open>
  \<^verbatim>\<open>str.contains(pat, case=False, na=False)\<close> has \<^verbatim>\<open>regex=True\<close> by default: it compiles
  \<^verbatim>\<open>pat\<close> with \<^verbatim>\<open>re.IGNORECASE\<close> and tests \<^verbatim>\<open>search(x) is not None\<close> on every cell that
  is a string; a missing cell gives \<^verbatim>\<open>na\<close>, here \<^verbatim>\<open>False\<close>.

  The pattern language is modelled concretely for the patterns built from literal
  characters, the alternation bar and a star after a literal. Any other pattern is
  handed to a parameter \<open>ext\<close>, which stands for the rest of the regular-expression
  engine: \<open>ext pat = None\<close> when compiling raises \<^verbatim>\<open>re.error\<close>, and otherwise
  \<open>ext pat = Some m\<close> with \<open>m x\<close> the outcome of the search in \<open>x\<close>.
\<close>

definition special :: "char \<Rightarrow> bool" where
  "special c = (c \<in> set ''.^$*+?{}[]|()'' \<or> c = CHR 0x5C)"

definition lower_chr :: "char \<Rightarrow> char" where
  "lower_chr c =
     (let n = (of_char c :: nat)
      in if (65 \<le> n \<and> n \<le> 90) \<or> (192 \<le> n \<and> n \<le> 222 \<and> n \<noteq> 215)
         then char_of (n + 32) else c)"

definition eq_ignorecase :: "char \<Rightarrow> char \<Rightarrow> bool" where
  "eq_ignorecase p x = (lower_chr x = lower_chr p)"

datatype item = Lit char | Star char

type_synonym regex = "item list list"

fun split_bar :: "string \<Rightarrow> string list" where
  "split_bar [] = [[]]"
| "split_bar (c # cs) =
     (if c = CHR ''|'' then [] # split_bar cs
      else (case split_bar cs of [] \<Rightarrow> [[c]] | a # as \<Rightarrow> (c # a) # as))"

fun parse_items :: "string \<Rightarrow> item list option" where
  "parse_items [] = Some []"
| "parse_items [c] = (if special c then None else Some [Lit c])"
| "parse_items (c # d # r) =
     (if special c then None
      else if d = CHR ''*'' then map_option (Cons (Star c)) (parse_items r)
      else map_option (Cons (Lit c)) (parse_items (d # r)))"

fun parse_alts :: "string list \<Rightarrow> regex option" where
  "parse_alts [] = Some []"
| "parse_alts (a # as) =
     (case parse_items a of None \<Rightarrow> None
      | Some r \<Rightarrow> map_option (Cons r) (parse_alts as))"

definition re_parse :: "string \<Rightarrow> regex option" where
  "re_parse pat = parse_alts (split_bar pat)"

text \<open>\<open>match_here is s\<close>: the item sequence matches a prefix of \<open>s\<close>.\<close>

fun match_here :: "item list \<Rightarrow> string \<Rightarrow> bool" where
  "match_here [] s = True"
| "match_here (Lit p # r) [] = False"
| "match_here (Lit p # r) (x # xs) = (eq_ignorecase p x \<and> match_here r xs)"
| "match_here (Star p # r) [] = match_here r []"
| "match_here (Star p # r) (x # xs) =
     (match_here r (x # xs) \<or> (eq_ignorecase p x \<and> match_here (Star p # r) xs))"

definition match_any :: "regex \<Rightarrow> string \<Rightarrow> bool" where
  "match_any re s = list_ex (\<lambda>is. match_here is s) re"

fun re_search :: "regex \<Rightarrow> string \<Rightarrow> bool" where
  "re_search re [] = match_any re []"
| "re_search re (x # xs) = (match_any re (x # xs) \<or> re_search re xs)"

type_synonym re_ext = "string \<Rightarrow> (string \<Rightarrow> bool) option"

definition re_compile :: "re_ext \<Rightarrow> string \<Rightarrow> (string \<Rightarrow> bool) option" where
  "re_compile ext pat =
     (case re_parse pat of Some re \<Rightarrow> Some (re_search re) | None \<Rightarrow> ext pat)"

text \<open>
  \<^verbatim>\<open>Series.str\<close> validates the column before any method of the accessor runs: on a
  column that is not of strings it raises
  \<^verbatim>\<open>AttributeError: Can only use .str accessor with string values\<close>.
\<close>

definition str_accessor :: "dtype \<Rightarrow> string option list \<Rightarrow> error + string option list" where
  "str_accessor dt col = (case dt of object_dtype \<Rightarrow> Inr col | numeric n \<Rightarrow> Inl AttributeError)"

text \<open>\<^verbatim>\<open>.contains(pat, case=False, na=False)\<close> on an accepted column.\<close>

definition str_contains :: "re_ext \<Rightarrow> string option list \<Rightarrow> string \<Rightarrow> error + bool list" where
  "str_contains ext col pat =
     (case re_compile ext pat of
        None \<Rightarrow> Inl ReError
      | Some m \<Rightarrow> Inr (map (\<lambda>cell. case cell of None \<Rightarrow> False | Some x \<Rightarrow> m x) col))"

subsection \<open>\<^verbatim>\<open>filter_transactions\<close>\<close>

text \<open>\<^verbatim>\<open>"|".join(bad_keywords)\<close>.\<close>

fun join_bar :: "string list \<Rightarrow> string" where
  "join_bar [] = []"
| "join_bar [k] = k"
| "join_bar (k # ks) = k @ ''|'' @ join_bar ks"

text \<open>Boolean indexing with the negated mask, \<^verbatim>\<open>df[~mask]\<close>.\<close>

definition select_not :: "dataframe \<Rightarrow> bool list \<Rightarrow> dataframe" where
  "select_not df msk = map fst (filter (\<lambda>(t, b). \<not> b) (zip df msk))"

text \<open>
  The function returns the revised frame; the two numbers it logs (lines 81 and 87) are
  returned beside it, as the removal counts of the filter contract. \<open>dt\<close> is the dtype of
  the \<^verbatim>\<open>Description\<close> column of \<open>df\<close>; the frame between the passes has the same.
\<close>

definition filter_transactions ::
  "re_ext \<Rightarrow> dtype \<Rightarrow> dataframe \<Rightarrow> string \<Rightarrow> string list
     \<Rightarrow> error + (dataframe \<times> int \<times> int)" where
  "filter_transactions ext dt df centrelink_keyword bad_keywords =
     (let before1 = int (length df) in
      case str_accessor dt (map description df) of
        Inl e \<Rightarrow> Inl e
      | Inr col \<Rightarrow>
      case str_contains ext col centrelink_keyword of
        Inl e \<Rightarrow> Inl e
      | Inr mask_centrelink \<Rightarrow>
          let df1 = select_not df mask_centrelink;
              removed_centrelink = before1 - int (length df1)
          in case str_accessor dt (map description df1) of
               Inl e \<Rightarrow> Inl e
             | Inr col1 \<Rightarrow>
             case str_contains ext col1 (join_bar bad_keywords) of
               Inl e \<Rightarrow> Inl e
             | Inr mask_bad \<Rightarrow>
                 let before2 = int (length df1);
                     df2 = select_not df1 mask_bad
                 in Inr (df2, removed_centrelink, before2 - int (length df2)))"

subsection \<open>\<^verbatim>\<open>add_employment_income\<close>\<close>

text \<open>
  The frame is the one \<open>filter_transactions\<close> has returned: its \<^verbatim>\<open>Description\<close> column has
  passed \<^verbatim>\<open>.str\<close> on lines 80 and 84 and keeps its dtype, so the accessor of line 94 accepts
  it, and the function starts at \<^verbatim>\<open>.contains\<close>.

  \<^verbatim>\<open>Series.any()\<close> on a Boolean column:
\<close>

definition any_true :: "bool list \<Rightarrow> bool" where
  "any_true msk = list_ex (\<lambda>b. b) msk"

definition new_row :: "rat \<Rightarrow> transaction" where
  "new_row income =
     \<lparr>date = None, description = Some ''Employment Income'', amount = Some income\<rparr>"

definition add_employment_income :: "re_ext \<Rightarrow> dataframe \<Rightarrow> rat \<Rightarrow> error + dataframe" where
  "add_employment_income ext df income =
     (case str_contains ext (map description df) ''Employment Income'' of
        Inl e \<Rightarrow> Inl e
      | Inr found \<Rightarrow>
          if \<not> any_true found then Inr (new_row income # df) else Inr df)"

subsection \<open>Binary64 arithmetic\<close>

text \<open>
  \<open>ilog2 x\<close> is the exponent of \<open>x\<close>: the integer \<open>e\<close> with \<open>2 powi e \<le> \<bar>x\<bar>\<close> and
  \<open>\<bar>x\<bar> < 2 powi (e + 1)\<close>, for \<open>x \<noteq> 0\<close>. It is found from the bit lengths of numerator and denominator.
\<close>

definition ilog2 :: "rat \<Rightarrow> int" where
  "ilog2 x =
     (let (p, q) = quotient_of \<bar>x\<bar>;
          d = bitlen p - bitlen q
      in if 2 powi d \<le> \<bar>x\<bar> then d else d - 1)"

definition round_half_even :: "rat \<Rightarrow> int" where
  "round_half_even y =
     (let f = \<lfloor>y\<rfloor>; r = y - of_int f
      in if r < 1 / 2 then f
         else if 1 / 2 < r then f + 1
         else if even f then f else f + 1)"

text \<open>
  \<open>fl64 x\<close> is \<open>x\<close> rounded to 53 significant bits, to nearest and ties to even; below
  \<open>2 powi (- 1022)\<close> the spacing stays that of the subnormal numbers, \<open>2 powi (- 1074)\<close>. \<open>to_float64\<close>
  is the rounding of IEEE 754: the result is an infinity when \<open>fl64\<close> exceeds the largest
  double.
\<close>

definition fl64 :: "rat \<Rightarrow> rat" where
  "fl64 x =
     (let e = max (ilog2 x) (- 1022);
          q = 2 powi (e - 52)
      in q * of_int (round_half_even (x / q)))"

datatype number = Finite rat | PosInf | NegInf | NaN

definition max_double :: rat where
  "max_double = 2 ^ 1024 - 2 ^ 971"

definition to_float64 :: "rat \<Rightarrow> number" where
  "to_float64 r =
     (let y = fl64 r
      in if max_double < y then PosInf
         else if y < - max_double then NegInf
         else Finite y)"

fun float_add :: "number \<Rightarrow> number \<Rightarrow> number" where
  "float_add (Finite a) (Finite b) = to_float64 (a + b)"
| "float_add NaN b = NaN"
| "float_add a NaN = NaN"
| "float_add PosInf NegInf = NaN"
| "float_add NegInf PosInf = NaN"
| "float_add PosInf b = PosInf"
| "float_add a PosInf = PosInf"
| "float_add NegInf b = NegInf"
| "float_add a NegInf = NegInf"

text \<open>The product of two finite floats.\<close>

definition float_mul :: "rat \<Rightarrow> rat \<Rightarrow> number" where
  "float_mul a b = to_float64 (a * b)"

text \<open>The comparison \<^verbatim>\<open><=\<close> of floats; it is false when an operand is not a number.\<close>

fun number_le :: "number \<Rightarrow> number \<Rightarrow> bool" where
  "number_le NaN b = False"
| "number_le a NaN = False"
| "number_le NegInf b = True"
| "number_le a PosInf = True"
| "number_le (Finite a) (Finite b) = (a \<le> b)"
| "number_le PosInf b = False"
| "number_le a NegInf = False"

subsection \<open>\<^verbatim>\<open>Series.sum()\<close>\<close>

text \<open>
  On a float64 column the sum is a chain of float additions. numpy adds fewer than eight
  numbers from left to right, from 0, and a longer column in blocks; the order is not in
  the source of the program. \<open>float_sum xs r\<close> holds when \<open>r\<close> is the result of adding
  the numbers of \<open>xs\<close>, each once, in some order and some grouping, every addition being
  a float addition. The summary takes the summation as a parameter \<open>sum64\<close>, which is any
  function with results in \<open>float_sum\<close>; \<open>sequential_sum\<close> is the one from left to right.
\<close>

inductive float_sum :: "rat list \<Rightarrow> number \<Rightarrow> bool" where
  float_sum_empty: "float_sum [] (Finite 0)"
| float_sum_single: "float_sum [x] (Finite x)"
| float_sum_add:
    "float_sum xs a \<Longrightarrow> float_sum ys b \<Longrightarrow> mset zs = mset xs + mset ys
       \<Longrightarrow> float_sum zs (float_add a b)"

definition summation :: "(rat list \<Rightarrow> number) \<Rightarrow> bool" where
  "summation sum64 = (\<forall>xs. float_sum xs (sum64 xs))"

definition sequential_sum :: "rat list \<Rightarrow> number" where
  "sequential_sum xs = foldl (\<lambda>acc x. float_add acc (Finite x)) (Finite 0) xs"

text \<open>
  On an int64 column the sum is a 64-bit two's complement sum: it wraps around without
  an error. The cells of such a column are whole numbers.
\<close>

definition wrap64 :: "int \<Rightarrow> int" where
  "wrap64 k = (k + 2 ^ 63) mod 2 ^ 64 - 2 ^ 63"

definition int64_sum :: "rat list \<Rightarrow> number" where
  "int64_sum xs = Finite (of_int (wrap64 (sum_list (map floor xs))))"

fun int64_add :: "number \<Rightarrow> number \<Rightarrow> number" where
  "int64_add (Finite a) (Finite b) = Finite (of_int (wrap64 (\<lfloor>a\<rfloor> + \<lfloor>b\<rfloor>)))"
| "int64_add a b = NaN"

definition series_sum :: "(rat list \<Rightarrow> number) \<Rightarrow> numeric_dtype \<Rightarrow> rat list \<Rightarrow> number" where
  "series_sum sum64 dt xs = (case dt of float64 \<Rightarrow> sum64 xs | int64 \<Rightarrow> int64_sum xs)"

text \<open>The sum of two numpy scalars of the dtype.\<close>

definition scalar_add :: "numeric_dtype \<Rightarrow> number \<Rightarrow> number \<Rightarrow> number" where
  "scalar_add dt a b = (case dt of float64 \<Rightarrow> float_add a b | int64 \<Rightarrow> int64_add a b)"

subsection \<open>\<^verbatim>\<open>compute_summary\<close>\<close>

record recommended =
  needs :: number
  wants :: number
  savings :: number

record summary =
  full_time_income :: rat
  total_income :: number
  total_expenses :: number
  balance :: number
  recommended :: recommended

text \<open>
  \<^verbatim>\<open>df[df["Amount"] > 0]\<close>: a comparison with a missing amount is false, so the row is
  not selected. \<^verbatim>\<open>Series.sum()\<close> skips missing values and is 0 on no rows.
\<close>

definition select_rows :: "dataframe \<Rightarrow> bool list \<Rightarrow> dataframe" where
  "select_rows df msk = map fst (filter (\<lambda>(t, b). b) (zip df msk))"

definition amount_gt0 :: "dataframe \<Rightarrow> bool list" where
  "amount_gt0 df = map (\<lambda>t. case amount t of None \<Rightarrow> False | Some a \<Rightarrow> a > 0) df"

definition amount_lt0 :: "dataframe \<Rightarrow> bool list" where
  "amount_lt0 df = map (\<lambda>t. case amount t of None \<Rightarrow> False | Some a \<Rightarrow> a < 0) df"

definition sum_amount :: "(rat list \<Rightarrow> number) \<Rightarrow> numeric_dtype \<Rightarrow> dataframe \<Rightarrow> number" where
  "sum_amount sum64 dt df = series_sum sum64 dt (List.map_filter amount df)"

text \<open>
  \<open>dt\<close> is the dtype of the \<^verbatim>\<open>Amount\<close> column. \<open>full_income\<close> is the float that
  \<^verbatim>\<open>argparse\<close> has read (\<^verbatim>\<open>type=float\<close>), taken finite; \<^verbatim>\<open>0.50\<close>, \<^verbatim>\<open>0.30\<close> and \<^verbatim>\<open>0.20\<close> are
  the doubles nearest to these decimals.
\<close>

definition compute_summary ::
  "(rat list \<Rightarrow> number) \<Rightarrow> numeric_dtype \<Rightarrow> dataframe \<Rightarrow> rat \<Rightarrow> summary" where
  "compute_summary sum64 dt df full_income =
     (let total_income = sum_amount sum64 dt (select_rows df (amount_gt0 df));
          total_expenses = sum_amount sum64 dt (select_rows df (amount_lt0 df));
          balance = scalar_add dt total_income total_expenses;
          needs = float_mul full_income (fl64 0.50);
          wants = float_mul full_income (fl64 0.30);
          savings = float_mul full_income (fl64 0.20)
      in \<lparr>full_time_income = full_income,
          total_income = total_income,
          total_expenses = total_expenses,
          balance = balance,
          recommended = \<lparr>needs = needs, wants = wants, savings = savings\<rparr>\<rparr>)"

subsection \<open>The properties in the words of the specification\<close>

text \<open>
  A description contains a keyword case-insensitively when the lower-cased keyword is a
  contiguous part of the lower-cased description.
\<close>

definition ci_contains :: "string \<Rightarrow> string \<Rightarrow> bool" where
  "ci_contains kw d = sublist (map lower_chr kw) (map lower_chr d)"

text \<open>The row is an "employment income" entry.\<close>

definition is_income_row :: "transaction \<Rightarrow> bool" where
  "is_income_row t =
     (case description t of None \<Rightarrow> False | Some d \<Rightarrow> ci_contains ''employment income'' d)"

text \<open>The row has a description that contains the exclusion keyword or a disqualifying one.\<close>

definition mentions :: "string \<Rightarrow> string list \<Rightarrow> transaction \<Rightarrow> bool" where
  "mentions kw bad t =
     (case description t of
        None \<Rightarrow> False
      | Some d \<Rightarrow> ci_contains kw d \<or> list_ex (\<lambda>k. ci_contains k d) bad)"

text \<open>A keyword without a character that is special in a regular expression.\<close>

definition plain :: "string \<Rightarrow> bool" where
  "plain kw = (\<not> list_ex special kw)"

text \<open>The cell of a row answers a compiled pattern; a missing cell answers no.\<close>

definition hit :: "(string \<Rightarrow> bool) \<Rightarrow> transaction \<Rightarrow> bool" where
  "hit m t = (case description t of None \<Rightarrow> False | Some x \<Rightarrow> m x)"

text \<open>
  An engine that raises \<^verbatim>\<open>re.error\<close> on every pattern outside the modelled ones. It
  instantiates \<open>ext\<close> where a closed term is evaluated.
\<close>

definition reject_others :: re_ext where
  "reject_others pat = None"

subsection \<open>The rows of the end-to-end scenarios\<close>

abbreviation centrelink_row :: transaction where
  "centrelink_row \<equiv>
     \<lparr>date = Some ''2024-01-01'', description = Some ''Centrelink Payment'', amount = Some 300\<rparr>"

abbreviation fraud_row :: transaction where
  "fraud_row \<equiv>
     \<lparr>date = Some ''2024-01-02'', description = Some ''Coffee - fraud charge'',
      amount = Some (- 10)\<rparr>"

abbreviation groceries_row :: transaction where
  "groceries_row \<equiv>
     \<lparr>date = Some ''2024-01-03'', description = Some ''Groceries'', amount = Some (- 50)\<rparr>"

abbreviation old_income_row :: transaction where
  "old_income_row \<equiv>
     \<lparr>date = None, description = Some ''Employment Income'', amount = Some 3500\<rparr>"

abbreviation undescribed_row :: transaction where
  "undescribed_row \<equiv> \<lparr>date = Some ''2024-01-04'', description = None, amount = Some (- 7)\<rparr>"

abbreviation uber_row :: transaction where
  "uber_row \<equiv>
     \<lparr>date = Some ''2024-01-05'', description = Some ''UBER *EATS SYDNEY'',
      amount = Some (- 25)\<rparr>"

abbreviation big_row :: transaction where
  "big_row \<equiv>
     \<lparr>date = Some ''2024-02-01'', description = Some ''Property sale'',
      amount = Some 10000000000000000\<rparr>"

abbreviation one_row :: transaction where
  "one_row \<equiv> \<lparr>date = Some ''2024-02-02'', description = Some ''Interest'', amount = Some 1\<rparr>"

abbreviation huge_row :: transaction where
  "huge_row \<equiv>
     \<lparr>date = None, description = Some ''Employment Income'',
      amount = Some 4611686018427387904\<rparr>"

section \<open>Auxiliary facts\<close>

subsection \<open>Masks and selections\<close>

lemma select_not_map: "select_not df (map g df) = filter (\<lambda>t. \<not> g t) df"
  by (induction df) (simp_all add: select_not_def)

lemma select_rows_map: "select_rows df (map g df) = filter g df"
  by (induction df) (simp_all add: select_rows_def)

lemma str_contains_description:
  "str_contains ext (map description df) pat =
     (case re_compile ext pat of None \<Rightarrow> Inl ReError | Some m \<Rightarrow> Inr (map (hit m) df))"
  by (simp add: str_contains_def hit_def split: option.splits)

lemma filter_filter_not:
  "filter (\<lambda>t. \<not> Q t) (filter (\<lambda>t. \<not> P t) xs) = filter (\<lambda>t. \<not> (P t \<or> Q t)) xs"
  by (induction xs) simp_all

text \<open>On a column that is not of strings the filter raises at the first accessor.\<close>

lemma filter_transactions_numeric:
  "filter_transactions ext (numeric n) df kw bad = Inl AttributeError"
  by (simp add: filter_transactions_def str_accessor_def)

text \<open>The two passes of \<open>filter_transactions\<close> on a column of strings.\<close>

lemma filter_transactions_eq:
  "filter_transactions ext object_dtype df kw bad =
     (case re_compile ext kw of
        None \<Rightarrow> Inl ReError
      | Some m1 \<Rightarrow>
          (case re_compile ext (join_bar bad) of
             None \<Rightarrow> Inl ReError
           | Some m2 \<Rightarrow>
               Inr (filter (\<lambda>t. \<not> hit m2 t) (filter (\<lambda>t. \<not> hit m1 t) df),
                    int (length df) - int (length (filter (\<lambda>t. \<not> hit m1 t) df)),
                    int (length (filter (\<lambda>t. \<not> hit m1 t) df))
                      - int (length (filter (\<lambda>t. \<not> hit m2 t) (filter (\<lambda>t. \<not> hit m1 t) df))))))"
  by (simp add: filter_transactions_def str_accessor_def str_contains_description
        select_not_map Let_def split: option.splits)

text \<open>A frame on which the filter returns has a column of strings.\<close>

lemma filter_transactions_returns:
  "filter_transactions ext dt df kw bad = Inr res \<Longrightarrow> dt = object_dtype"
  by (cases dt) (simp_all add: filter_transactions_numeric)

subsection \<open>Plain keywords are searched as case-insensitive substrings\<close>

lemma match_here_lits:
  "match_here (map Lit p) s = prefix (map lower_chr p) (map lower_chr s)"
proof (induction p arbitrary: s)
  case Nil
  show ?case by simp
next
  case (Cons c p)
  show ?case by (cases s) (auto simp: Cons.IH eq_ignorecase_def)
qed

lemma match_any_lits:
  "match_any (map (map Lit) ps) s = list_ex (\<lambda>p. prefix (map lower_chr p) (map lower_chr s)) ps"
  by (induction ps) (simp_all add: match_any_def match_here_lits)

lemma re_search_lits:
  "re_search (map (map Lit) ps) s = list_ex (\<lambda>p. ci_contains p s) ps"
proof (induction s)
  case Nil
  show ?case by (simp add: match_any_lits ci_contains_def)
next
  case (Cons x xs)
  have "list_ex (\<lambda>p. ci_contains p (x # xs)) ps =
        (list_ex (\<lambda>p. prefix (map lower_chr p) (map lower_chr (x # xs))) ps
           \<or> list_ex (\<lambda>p. ci_contains p xs) ps)"
    by (induction ps) (auto simp: ci_contains_def sublist_Cons_right)
  then show ?case by (simp add: Cons.IH match_any_lits)
qed

lemma parse_items_plain: "plain p \<Longrightarrow> parse_items p = Some (map Lit p)"
proof (induction p rule: parse_items.induct)
  case 1
  show ?case by simp
next
  case (2 c)
  then show ?case by (simp add: plain_def)
next
  case (3 c d r)
  from "3.prems" have nc: "\<not> special c" and nd: "\<not> special d" and pr: "plain (d # r)"
    by (simp_all add: plain_def)
  from nd have "d \<noteq> CHR ''*''" by (auto simp: special_def)
  with nc pr "3.IH"(2) show ?case by simp
qed

lemma split_bar_plain: "plain p \<Longrightarrow> split_bar p = [p]"
proof (induction p)
  case Nil
  show ?case by simp
next
  case (Cons c p)
  then have "c \<noteq> CHR ''|''" and "plain p" by (auto simp: plain_def special_def)
  with Cons.IH show ?case by simp
qed

lemma split_bar_append:
  "plain k \<Longrightarrow> split_bar (k @ CHR ''|'' # r) = k # split_bar r"
proof (induction k)
  case Nil
  show ?case by simp
next
  case (Cons c k)
  then have "c \<noteq> CHR ''|''" and "plain k" by (auto simp: plain_def special_def)
  with Cons.IH show ?case by simp
qed

lemma split_bar_join:
  "ks \<noteq> [] \<Longrightarrow> list_all plain ks \<Longrightarrow> split_bar (join_bar ks) = ks"
proof (induction ks rule: join_bar.induct)
  case 1
  then show ?case by simp
next
  case (2 k)
  then show ?case by (simp add: split_bar_plain)
next
  case (3 k v va)
  then show ?case by (simp add: split_bar_append)
qed

lemma parse_alts_plain: "list_all plain ks \<Longrightarrow> parse_alts ks = Some (map (map Lit) ks)"
  by (induction ks) (simp_all add: parse_items_plain)

lemma re_compile_plain:
  "plain kw \<Longrightarrow> re_compile ext kw = Some (ci_contains kw)"
proof -
  assume p: "plain kw"
  have "re_search [map Lit kw] = ci_contains kw"
    using re_search_lits [of "[kw]"] by (intro ext) simp
  with p show ?thesis
    by (simp add: re_compile_def re_parse_def split_bar_plain parse_items_plain)
qed

lemma re_compile_join_plain:
  assumes "ks \<noteq> []" "list_all plain ks"
  shows "re_compile ext (join_bar ks) = Some (\<lambda>d. list_ex (\<lambda>k. ci_contains k d) ks)"
proof -
  have "re_search (map (map Lit) ks) = (\<lambda>d. list_ex (\<lambda>k. ci_contains k d) ks)"
    by (rule ext) (simp add: re_search_lits)
  with assms show ?thesis
    by (simp add: re_compile_def re_parse_def split_bar_join parse_alts_plain)
qed

text \<open>The empty pattern, which is what joining no keyword gives, is found in every string.\<close>

lemma re_compile_empty: "re_compile ext [] = Some (\<lambda>d. True)"
proof -
  have "re_search [[]] = (\<lambda>d. True)"
  proof (rule ext)
    fix d show "re_search [[]] d = True" by (induction d) (simp_all add: match_any_def)
  qed
  then show ?thesis by (simp add: re_compile_def re_parse_def)
qed

section \<open>The filter engine\<close>

text \<open>
  With keywords free of special characters, and at least one disqualifying keyword,
  the filter keeps exactly the rows whose description mentions none of them.
\<close>

lemma filter_transactions_plain:
  assumes "plain kw" and "bad \<noteq> []" and "list_all plain bad"
  shows "\<exists>n1 n2. filter_transactions ext object_dtype df kw bad
           = Inr (filter (\<lambda>t. \<not> mentions kw bad t) df, n1, n2)"
proof -
  have "(\<lambda>t. \<not> (hit (ci_contains kw) t \<or> hit (\<lambda>d. list_ex (\<lambda>k. ci_contains k d) bad) t))
        = (\<lambda>t. \<not> mentions kw bad t)"
    by (auto simp: hit_def mentions_def fun_eq_iff split: option.splits)
  then show ?thesis
    by (simp add: filter_transactions_eq re_compile_plain [OF assms(1)]
          re_compile_join_plain [OF assms(2,3)] filter_filter_not)
qed

text \<open>With no disqualifying keyword, every row that has a description is removed.\<close>

lemma filter_no_bad_keywords:
  "filter_transactions ext dt df kw [] = Inr (out, n1, n2) \<Longrightarrow>
   list_all (\<lambda>t. description t = None) out"
  by (frule filter_transactions_returns)
    (auto simp: filter_transactions_eq re_compile_empty hit_def list_all_iff
           split: option.splits)

text \<open>Scenario A of the specification: the Centrelink row and the fraud row are removed.\<close>

lemma scenario_a_filter:
  "filter_transactions reject_others object_dtype [centrelink_row, fraud_row, groceries_row]
     ''Centrelink'' [''bad'', ''fraud'', ''error'']
   = Inr ([groceries_row], 1, 1)"
  by code_simp

text \<open>
  C9. The filter is idempotent: applied with the same keywords to a frame it has
  returned, it returns that frame again and both removal counts are zero.
\<close>

theorem filter_idempotent:
  "filter_transactions ext dt df kw bad = Inr (out, n1, n2) \<Longrightarrow>
   filter_transactions ext dt out kw bad = Inr (out, 0, 0)"
proof -
  assume "filter_transactions ext dt df kw bad = Inr (out, n1, n2)"
  then have dt: "dt = object_dtype"
    and a: "filter_transactions ext object_dtype df kw bad = Inr (out, n1, n2)"
    by (auto dest: filter_transactions_returns)
  from a obtain m1 m2 where c1: "re_compile ext kw = Some m1"
    and c2: "re_compile ext (join_bar bad) = Some m2"
    and out: "out = filter (\<lambda>t. \<not> hit m2 t) (filter (\<lambda>t. \<not> hit m1 t) df)"
    by (auto simp: filter_transactions_eq split: option.splits)
  have f1: "filter (\<lambda>t. \<not> hit m1 t) out = out"
    by (subst filter_id_conv) (auto simp: out)
  have f2: "filter (\<lambda>t. \<not> hit m2 t) out = out"
    by (subst filter_id_conv) (auto simp: out)
  show ?thesis by (simp add: dt filter_transactions_eq c1 c2 f1 f2)
qed

theorem filter_idempotent_witness:
  "filter_transactions reject_others object_dtype [centrelink_row, fraud_row, groceries_row]
     ''Centrelink'' [''bad'', ''fraud'', ''error''] = Inr ([groceries_row], 1, 1)
   \<and> filter_transactions reject_others object_dtype [groceries_row]
     ''Centrelink'' [''bad'', ''fraud'', ''error''] = Inr ([groceries_row], 0, 0)"
  using filter_idempotent [OF scenario_a_filter] scenario_a_filter by simp

text \<open>
  C10. The frame the filter returns is an order-preserving subsequence of its input, so
  every row it keeps is a row of the input with all fields as they were; the two removal
  counts are not negative and, with the length of the output, add up to the length of the
  input.
\<close>

theorem filter_frame:
  "filter_transactions ext dt df kw bad = Inr (out, n1, n2) \<Longrightarrow>
   subseq out df \<and> n1 + n2 + int (length out) = int (length df) \<and> 0 \<le> n1 \<and> 0 \<le> n2"
proof -
  assume "filter_transactions ext dt df kw bad = Inr (out, n1, n2)"
  then have a: "filter_transactions ext object_dtype df kw bad = Inr (out, n1, n2)"
    by (auto dest: filter_transactions_returns)
  then obtain m1 m2 where
    out: "out = filter (\<lambda>t. \<not> hit m2 t) (filter (\<lambda>t. \<not> hit m1 t) df)"
    and n1: "n1 = int (length df) - int (length (filter (\<lambda>t. \<not> hit m1 t) df))"
    and n2: "n2 = int (length (filter (\<lambda>t. \<not> hit m1 t) df)) - int (length out)"
    by (auto simp: filter_transactions_eq split: option.splits)
  have sub: "subseq out df" unfolding out filter_filter by (rule subseq_filter_left)
  have total: "n1 + n2 + int (length out) = int (length df)" using n1 n2 by simp
  have first: "0 \<le> n1" using n1 by simp
  have "length out \<le> length (filter (\<lambda>t. \<not> hit m1 t) df)"
    unfolding out by (rule length_filter_le)
  then have second: "0 \<le> n2" using n2 by simp
  from sub total first second show ?thesis by simp
qed

theorem filter_frame_witness:
  "filter_transactions reject_others object_dtype [centrelink_row, fraud_row, groceries_row]
     ''Centrelink'' [''bad'', ''fraud'', ''error''] = Inr ([groceries_row], 1, 1)
   \<and> subseq [groceries_row] [centrelink_row, fraud_row, groceries_row]
   \<and> (1::int) + 1 + int (length [groceries_row])
       = int (length [centrelink_row, fraud_row, groceries_row])"
  using filter_frame [OF scenario_a_filter] scenario_a_filter by simp

text \<open>
  C1. Filter correctness, as the specification words it: every row whose description
  contains the exclusion keyword or a disqualifying keyword, case-insensitively and as a
  substring, is removed. The program hands each keyword to the regular-expression engine
  as a pattern, so a keyword with a special character is not searched as the text it is.
  With the exclusion keyword \<^verbatim>\<open>UBER *EATS\<close> the star makes the blank optional and
  repeatable; the description \<^verbatim>\<open>UBER *EATS SYDNEY\<close> contains the keyword and the row stays.
\<close>

theorem filter_keeps_keyword_with_star:
  "filter_transactions ext object_dtype [uber_row] ''UBER *EATS'' [''fraud'']
     = Inr ([uber_row], 0, 0)
   \<and> mentions ''UBER *EATS'' [''fraud''] uber_row"
proof -
  have "mentions ''UBER *EATS'' [''fraud''] uber_row" by code_simp
  moreover
  have "filter_transactions ext object_dtype [uber_row] ''UBER *EATS'' [''fraud'']
     = Inr ([uber_row], 0, 0)"
    by (simp add: filter_transactions_def str_accessor_def str_contains_def re_compile_def
          re_parse_def special_def match_any_def eq_ignorecase_def lower_chr_def select_not_def char_of_def)
  ultimately show ?thesis by simp
qed

text \<open>
  C2. An empty list of disqualifying keywords should remove nothing in the second pass.
  The program joins the keywords with bars; no keyword gives the empty pattern, which is
  found in every description, and the pass removes the row.
\<close>

theorem filter_without_bad_keywords:
  "filter_transactions ext object_dtype [groceries_row] ''Centrelink'' [] = Inr ([], 0, 1)"
  by (simp add: filter_transactions_def str_accessor_def str_contains_def re_compile_def
        re_parse_def special_def match_any_def eq_ignorecase_def lower_chr_def select_not_def char_of_def)

section \<open>The income normalizer\<close>

lemma lower_employment_income:
  "map lower_chr ''Employment Income'' = map lower_chr ''employment income''"
  by code_simp

lemma plain_employment_income: "plain ''Employment Income''"
  by (simp add: plain_def special_def)

lemma ci_contains_employment_income:
  "ci_contains ''Employment Income'' d = ci_contains ''employment income'' d"
  by (simp only: ci_contains_def lower_employment_income)

lemma hit_employment_income: "hit (ci_contains ''Employment Income'') = is_income_row"
  by (rule ext)
    (simp add: hit_def is_income_row_def ci_contains_employment_income split: option.splits)

lemma any_true_map: "any_true (map g df) = list_ex g df"
  by (simp add: any_true_def list_ex_iff)

lemma add_employment_income_eq:
  "add_employment_income ext df income =
     Inr (if list_ex is_income_row df then df else new_row income # df)"
  by (simp add: add_employment_income_def str_contains_description
        re_compile_plain [OF plain_employment_income] any_true_map hit_employment_income)









section \<open>Absent descriptions\<close>

text \<open>
  C5. Filtering is to keep a row without description and is not to raise on it. The
  program passes \<^verbatim>\<open>na=False\<close> for that, but it reaches \<^verbatim>\<open>.contains\<close> through \<^verbatim>\<open>.str\<close>, and
  \<^verbatim>\<open>.str\<close> refuses a column that holds no string at all: \<^verbatim>\<open>read_csv\<close> has read the
  \<^verbatim>\<open>Description\<close> column of a file whose descriptions are all blank as float64. On such a
  frame line 80 raises.
\<close>

theorem filter_raises_on_blank_descriptions:
  "filter_transactions ext (numeric float64) [undescribed_row]
     ''Centrelink'' [''bad'', ''fraud'', ''error''] = Inl AttributeError"
  by (rule filter_transactions_numeric)

text \<open>
  On a column of strings the absent descriptions are harmless: a missing cell answers no
  to every pattern, the rows without description of the output are those of the input,
  whether the filter raises does not depend on the rows, and the scan of
  \<open>add_employment_income\<close> never raises.
\<close>

lemma absent_description_on_strings:
  "(str_contains ext col pat = Inr msk \<longrightarrow>
      length msk = length col \<and> (\<forall>i < length col. col ! i = None \<longrightarrow> \<not> msk ! i))
   \<and> (filter_transactions ext object_dtype df kw bad = Inr (out, n1, n2) \<longrightarrow>
        filter (\<lambda>t. description t = None) out = filter (\<lambda>t. description t = None) df)
   \<and> isl (filter_transactions ext object_dtype df kw bad)
       = isl (filter_transactions ext object_dtype [] kw bad)
   \<and> (\<exists>res. add_employment_income ext df income = Inr res)"
proof (intro conjI impI)
  assume "str_contains ext col pat = Inr msk"
  then show "length msk = length col"
    by (auto simp: str_contains_def split: option.splits)
next
  assume "str_contains ext col pat = Inr msk"
  then show "\<forall>i < length col. col ! i = None \<longrightarrow> \<not> msk ! i"
    by (auto simp: str_contains_def split: option.splits)
next
  assume "filter_transactions ext object_dtype df kw bad = Inr (out, n1, n2)"
  then obtain m1 m2 where
    out: "out = filter (\<lambda>t. \<not> hit m2 t) (filter (\<lambda>t. \<not> hit m1 t) df)"
    by (auto simp: filter_transactions_eq split: option.splits)
  have "\<And>m t. description t = None \<Longrightarrow> \<not> hit m t" by (simp add: hit_def)
  then show "filter (\<lambda>t. description t = None) out = filter (\<lambda>t. description t = None) df"
    unfolding out by (auto intro!: filter_cong)
next
  show "isl (filter_transactions ext object_dtype df kw bad)
          = isl (filter_transactions ext object_dtype [] kw bad)"
    by (simp add: filter_transactions_eq split: option.splits)
next
  show "\<exists>res. add_employment_income ext df income = Inr res"
    by (simp add: add_employment_income_eq)
qed

section \<open>Binary64 rounding\<close>

subsection \<open>Exponent and rounding error\<close>

lemma pow2_div: "(2::rat) ^ a / 2 ^ b = 2 powi (int a - int b)"
  by (simp add: power_int_diff)

lemma ilog2_bounds:
  assumes "x \<noteq> 0"
  shows "2 powi ilog2 x \<le> \<bar>x\<bar>" and "\<bar>x\<bar> < 2 powi (ilog2 x + 1)"
proof -
  obtain p q where pq: "quotient_of \<bar>x\<bar> = (p, q)" by (cases "quotient_of \<bar>x\<bar>")
  then have q: "0 < q" and x: "\<bar>x\<bar> = of_int p / of_int q"
    by (simp_all add: quotient_of_denom_pos quotient_of_div)
  from assms x q have p: "0 < p"
    by (metis abs_of_pos abs_zero divide_eq_0_iff not_less_iff_gr_or_eq of_int_0
        of_int_pos zero_less_abs_iff zero_less_divide_iff of_int_0_less_iff)
  define a where "a = nat (bitlen p - 1)"
  define b where "b = nat (bitlen q - 1)"
  have bp: "bitlen p = int a + 1" and bq: "bitlen q = int b + 1"
    using p q by (auto simp: a_def b_def bitlen_alt_def)
  from bitlen_bounds [OF p] have p1: "2 ^ a \<le> p" and p2: "p < 2 ^ (a + 1)"
    by (simp_all add: a_def [symmetric] bp nat_add_distrib)
  from bitlen_bounds [OF q] have q1: "2 ^ b \<le> q" and q2: "q < 2 ^ (b + 1)"
    by (simp_all add: b_def [symmetric] bq nat_add_distrib)
  have P1: "(2::rat) ^ a \<le> of_int p" using p1 by (metis of_int_le_iff of_int_numeral of_int_power)
  have P2: "(of_int p :: rat) < 2 ^ (a + 1)" using p2 by (metis of_int_less_iff of_int_numeral of_int_power)
  have Q1: "(2::rat) ^ b \<le> of_int q" using q1 by (metis of_int_le_iff of_int_numeral of_int_power)
  have Q2: "(of_int q :: rat) < 2 ^ (b + 1)" using q2 by (metis of_int_less_iff of_int_numeral of_int_power)
  have qpos: "(0::rat) < of_int q" using q by simp
  have up: "\<bar>x\<bar> < 2 powi (int a - int b + 1)"
  proof -
    have "\<bar>x\<bar> < 2 ^ (a + 1) / of_int q" unfolding x using P2 qpos by (simp add: divide_strict_right_mono)
    also have "\<dots> \<le> 2 ^ (a + 1) / 2 ^ b" using Q1 by (simp add: frac_le)
    also have "\<dots> = 2 powi (int a - int b + 1)"
      by (simp only: pow2_div) (simp add: algebra_simps)
    finally show ?thesis .
  qed
  have lo: "2 powi (int a - int b - 1) < \<bar>x\<bar>"
  proof -
    have "(2::rat) ^ a / 2 ^ (b + 1) = 2 powi (int a - int b - 1)"
      by (simp only: pow2_div) (simp add: algebra_simps)
    then have "(2::rat) powi (int a - int b - 1) = 2 ^ a / 2 ^ (b + 1)" by simp
    also have "\<dots> < 2 ^ a / of_int q" using Q2 qpos by (intro divide_strict_left_mono) simp_all
    also have "\<dots> \<le> \<bar>x\<bar>" unfolding x using P1 qpos by (simp add: divide_right_mono)
    finally show ?thesis .
  qed
  have d: "bitlen p - bitlen q = int a - int b" by (simp add: bp bq)
  show "2 powi ilog2 x \<le> \<bar>x\<bar>"
    using lo by (auto simp: ilog2_def pq d Let_def)
  show "\<bar>x\<bar> < 2 powi (ilog2 x + 1)"
    using up by (auto simp: ilog2_def pq d Let_def not_le)
qed

lemma round_half_even_error: "\<bar>of_int (round_half_even y) - y\<bar> \<le> 1 / 2"
proof -
  have "0 \<le> y - of_int \<lfloor>y\<rfloor>" "y - of_int \<lfloor>y\<rfloor> < 1" by linarith+
  then show ?thesis by (auto simp: round_half_even_def Let_def)
qed

lemma round_half_even_nonneg: "0 \<le> y \<Longrightarrow> 0 \<le> round_half_even y"
  by (auto simp: round_half_even_def Let_def)

lemma round_half_even_nonpos: "y \<le> 0 \<Longrightarrow> round_half_even y \<le> 0"
proof -
  assume y: "y \<le> 0"
  have f: "\<lfloor>y\<rfloor> \<le> 0" using y by (simp add: floor_le_zero)
  show ?thesis
  proof (cases "\<lfloor>y\<rfloor> = 0")
    case True
    then have "0 \<le> y" by (metis of_int_floor_le of_int_0)
    with y have "y = 0" by simp
    then show ?thesis by (simp add: round_half_even_def)
  next
    case False
    with f have "\<lfloor>y\<rfloor> + 1 \<le> 0" by linarith
    with f show ?thesis by (auto simp: round_half_even_def Let_def)
  qed
qed

lemma fl64_zero: "fl64 0 = 0"
  by (simp add: fl64_def round_half_even_def Let_def)

lemma fl64_nonneg: "0 \<le> x \<Longrightarrow> 0 \<le> fl64 x"
  by (simp add: fl64_def Let_def round_half_even_nonneg)

lemma fl64_nonpos: "x \<le> 0 \<Longrightarrow> fl64 x \<le> 0"
proof -
  assume x: "x \<le> 0"
  define q :: rat where "q = 2 powi (max (ilog2 x) (- 1022) - 52)"
  have q: "0 < q" by (simp add: q_def)
  then have "x / q \<le> 0" using x by (simp add: divide_nonpos_pos)
  then have "round_half_even (x / q) \<le> 0" by (rule round_half_even_nonpos)
  then have "q * of_int (round_half_even (x / q)) \<le> 0"
    using q by (simp add: mult_le_0_iff)
  then show ?thesis by (simp add: fl64_def Let_def q_def)
qed

lemma fl64_quantum:
  "\<bar>fl64 x - x\<bar> \<le> 2 powi (max (ilog2 x) (- 1022) - 53)"
proof -
  define e where "e = max (ilog2 x) (- 1022)"
  define q :: rat where "q = 2 powi (e - 52)"
  have q: "0 < q" by (simp add: q_def)
  have "fl64 x - x = q * (of_int (round_half_even (x / q)) - x / q)"
    using q by (simp add: fl64_def Let_def e_def q_def algebra_simps)
  then have "\<bar>fl64 x - x\<bar> = q * \<bar>of_int (round_half_even (x / q)) - x / q\<bar>"
    using q by (simp add: abs_mult)
  also have "\<dots> \<le> q * (1 / 2)"
    using q round_half_even_error [of "x / q"] by (intro mult_left_mono) simp_all
  also have "\<dots> = 2 powi (e - 53)"
  proof -
    have "(2::rat) powi (e - 52) = 2 powi (e - 53) * 2"
      using power_int_add_1 [of "2::rat" "e - 53"] by simp
    then show ?thesis by (simp add: q_def)
  qed
  finally show ?thesis by (simp add: e_def)
qed

lemma fl64_error:
  "\<bar>fl64 x - x\<bar> \<le> \<bar>x\<bar> / 2 ^ 53 + 2 powi (- 1075)"
proof (cases "- 1022 \<le> ilog2 x \<and> x \<noteq> 0")
  case True
  then have m: "max (ilog2 x) (- 1022) = ilog2 x" by simp
  have "(2::rat) powi (ilog2 x - 53) = 2 powi ilog2 x / 2 ^ 53"
    by (simp add: power_int_diff)
  also have "\<dots> \<le> \<bar>x\<bar> / 2 ^ 53"
    using ilog2_bounds(1) [of x] True by (simp add: divide_right_mono)
  finally have "\<bar>fl64 x - x\<bar> \<le> \<bar>x\<bar> / 2 ^ 53"
    using fl64_quantum [of x] m by simp
  moreover have "(0::rat) \<le> 2 powi (- 1075)" by simp
  ultimately show ?thesis by linarith
next
  case False
  show ?thesis
  proof (cases "x = 0")
    case True
    then show ?thesis by (simp add: fl64_zero)
  next
    case nz: False
    with False have "max (ilog2 x) (- 1022) = - 1022" by simp
    then have "\<bar>fl64 x - x\<bar> \<le> 2 powi (- 1075)"
      using fl64_quantum [of x] by simp
    moreover have "0 \<le> \<bar>x\<bar> / 2 ^ 53" by simp
    ultimately show ?thesis by linarith
  qed
qed

lemma fl64_abs_le: "\<bar>fl64 x\<bar> \<le> \<bar>x\<bar> + (\<bar>x\<bar> / 2 ^ 53 + 2 powi (- 1075))"
  using fl64_error [of x] by linarith

subsection \<open>The three allocations\<close>

lemma c50: "fl64 0.50 = 1 / 2" by code_simp
lemma c30: "fl64 0.30 = 5404319552844595 / 18014398509481984" by code_simp
lemma c20: "fl64 0.20 = 3602879701896397 / 18014398509481984" by code_simp

lemma to_float64_Finite: "\<bar>fl64 r\<bar> \<le> max_double \<Longrightarrow> to_float64 r = Finite (fl64 r)"
  by (auto simp: to_float64_def Let_def)

lemma eta_small: "(2::rat) powi (- 1075) \<le> 1 / 2 ^ 1075"
  by (simp add: power_int_minus_divide)

lemma product_finite:
  assumes t: "\<bar>t\<bar> \<le> max_double" and c: "0 \<le> c" "c \<le> 1 / 2"
  shows "\<bar>fl64 (t * c)\<bar> \<le> max_double"
proof -
  have "\<bar>t * c\<bar> \<le> max_double / 2"
  proof -
    have "\<bar>t * c\<bar> = \<bar>t\<bar> * c" using c by (simp add: abs_mult)
    also have "\<dots> \<le> max_double * (1 / 2)"
      using t c by (intro mult_mono) (simp_all add: max_double_def)
    finally show ?thesis by simp
  qed
  moreover have "\<bar>fl64 (t * c)\<bar> \<le> \<bar>t * c\<bar> + (\<bar>t * c\<bar> / 2 ^ 53 + 2 powi (- 1075))"
    by (rule fl64_abs_le)
  moreover have "(2::rat) powi (- 1075) \<le> 1" 
    by (simp add: power_int_minus_divide)
  moreover have "(4::rat) \<le> max_double" by (simp add: max_double_def)
  ultimately show ?thesis by (simp add: field_simps) 
qed

lemma allocation_errors:
  fixes t :: rat
  defines "n \<equiv> fl64 (t * fl64 0.50)" and "w \<equiv> fl64 (t * fl64 0.30)"
    and "s \<equiv> fl64 (t * fl64 0.20)"
  shows "\<bar>n - t * (1 / 2)\<bar> \<le> \<bar>t\<bar> * (1 / 2) / 2 ^ 53 + 2 powi (- 1075)"
    and "\<bar>w - t * (5404319552844595 / 18014398509481984)\<bar>
           \<le> \<bar>t\<bar> * (5404319552844595 / 18014398509481984) / 2 ^ 53 + 2 powi (- 1075)"
    and "\<bar>s - t * (3602879701896397 / 18014398509481984)\<bar>
           \<le> \<bar>t\<bar> * (3602879701896397 / 18014398509481984) / 2 ^ 53 + 2 powi (- 1075)"
proof -
  show "\<bar>n - t * (1 / 2)\<bar> \<le> \<bar>t\<bar> * (1 / 2) / 2 ^ 53 + 2 powi (- 1075)"
    using fl64_error [of "t * (1 / 2)"] unfolding n_def c50 by (simp add: abs_mult)
  show "\<bar>w - t * (5404319552844595 / 18014398509481984)\<bar>
           \<le> \<bar>t\<bar> * (5404319552844595 / 18014398509481984) / 2 ^ 53 + 2 powi (- 1075)"
    using fl64_error [of "t * (5404319552844595 / 18014398509481984)"] unfolding w_def c30
    by (simp add: abs_mult)
  show "\<bar>s - t * (3602879701896397 / 18014398509481984)\<bar>
           \<le> \<bar>t\<bar> * (3602879701896397 / 18014398509481984) / 2 ^ 53 + 2 powi (- 1075)"
    using fl64_error [of "t * (3602879701896397 / 18014398509481984)"] unfolding s_def c20
    by (simp add: abs_mult)
qed

lemma allocation_sum_exact:
  fixes t :: rat
  defines "n \<equiv> fl64 (t * fl64 0.50)" and "w \<equiv> fl64 (t * fl64 0.30)"
    and "s \<equiv> fl64 (t * fl64 0.20)"
  shows "\<bar>n + w + s - t\<bar> \<le> \<bar>t\<bar> / 2 ^ 53 + 3 * 2 powi (- 1075)"
proof -
  define E :: rat where "E = 2 powi (- 1075)"
  note e = allocation_errors [of t, folded n_def w_def s_def E_def]
  have id: "n + w + s - t = (n - t * (1 / 2))
      + (w - t * (5404319552844595 / 18014398509481984))
      + (s - t * (3602879701896397 / 18014398509481984))"
    by (simp add: algebra_simps)
  have "\<bar>n + w + s - t\<bar> \<le> \<bar>n - t * (1 / 2)\<bar>
      + \<bar>w - t * (5404319552844595 / 18014398509481984)\<bar>
      + \<bar>s - t * (3602879701896397 / 18014398509481984)\<bar>"
    unfolding id by linarith
  also have "\<dots> \<le> \<bar>t\<bar> / 2 ^ 53 + 3 * E"
    using e by (simp add: field_simps)
  finally show ?thesis by (simp add: E_def)
qed


lemma allocation_sum_float:
  fixes t :: rat
  defines "n \<equiv> fl64 (t * fl64 0.50)" and "w \<equiv> fl64 (t * fl64 0.30)"
    and "s \<equiv> fl64 (t * fl64 0.20)"
  shows "\<bar>n + w\<bar> \<le> \<bar>t\<bar> + 2 * 2 powi (- 1075)"
    and "\<bar>fl64 (n + w) + s\<bar> \<le> 2 * \<bar>t\<bar> + 6 * 2 powi (- 1075)"
    and "\<bar>fl64 (fl64 (n + w) + s) - t\<bar> \<le> \<bar>t\<bar> / 2 ^ 51 + 8 * 2 powi (- 1075)"
proof -
  define E :: rat where "E = 2 powi (- 1075)"
  have E0: "0 \<le> E" and E1: "E / 2 ^ 53 \<le> E"
    by (simp_all add: E_def)
  note e = allocation_errors [of t, folded n_def w_def s_def E_def]
  note a = allocation_sum_exact [of t, folded n_def w_def s_def E_def]
  define T where "T = \<bar>t\<bar>"
  have T0: "0 \<le> T" by (simp add: T_def)
  have k: "\<bar>t * (1 / 2) + t * (5404319552844595 / 18014398509481984)\<bar> \<le> T * (4 / 5)"
  proof -
    have "t * (1 / 2) + t * (5404319552844595 / 18014398509481984)
            = t * (14411518807585587 / 18014398509481984)"
      by (simp add: algebra_simps)
    then have "\<bar>t * (1 / 2) + t * (5404319552844595 / 18014398509481984)\<bar>
            = T * (14411518807585587 / 18014398509481984)"
      by (simp add: abs_mult T_def)
    also have "\<dots> \<le> T * (4 / 5)" using T0 by (intro mult_left_mono) simp_all
    finally show ?thesis .
  qed
  have tri: "\<bar>n + w\<bar> \<le> \<bar>n - t * (1 / 2)\<bar>
      + \<bar>w - t * (5404319552844595 / 18014398509481984)\<bar>
      + \<bar>t * (1 / 2) + t * (5404319552844595 / 18014398509481984)\<bar>"
    by linarith
  have s1: "\<bar>n - t * (1 / 2)\<bar> \<le> T / 10 + E"
  proof -
    have "T * (1 / 2) / 2 ^ 53 \<le> T / 10" using T0 by simp
    with e(1) show ?thesis unfolding T_def by linarith
  qed
  have s2: "\<bar>w - t * (5404319552844595 / 18014398509481984)\<bar> \<le> T / 10 + E"
  proof -
    have "T * (5404319552844595 / 18014398509481984) / 2 ^ 53 \<le> T / 10" using T0 by simp
    with e(2) show ?thesis unfolding T_def by linarith
  qed
  from tri s1 s2 k have nw: "\<bar>n + w\<bar> \<le> T + 2 * E" by linarith
  then show "\<bar>n + w\<bar> \<le> \<bar>t\<bar> + 2 * 2 powi (- 1075)" by (simp add: T_def E_def)
  have B: "\<bar>fl64 (n + w) - (n + w)\<bar> \<le> T / 2 ^ 53 + 2 * E"
  proof -
    have "\<bar>fl64 (n + w) - (n + w)\<bar> \<le> \<bar>n + w\<bar> / 2 ^ 53 + E"
      using fl64_error [of "n + w"] by (simp add: E_def)
    also have "\<bar>n + w\<bar> / 2 ^ 53 \<le> (T + 2 * E) / 2 ^ 53"
      using nw by (simp add: divide_right_mono)
    also have "(T + 2 * E) / 2 ^ 53 \<le> T / 2 ^ 53 + E"
      using E0 by (simp add: field_simps)
    finally show ?thesis by simp
  qed
  have A: "\<bar>n + w + s - t\<bar> \<le> T / 2 ^ 53 + 3 * E" using a by (simp add: T_def)
  have S: "\<bar>fl64 (n + w) + s\<bar> \<le> 2 * T + 6 * E"
  proof -
    have "\<bar>fl64 (n + w) + s\<bar> \<le> \<bar>fl64 (n + w) - (n + w)\<bar> + \<bar>n + w + s - t\<bar> + T"
      unfolding T_def by linarith
    moreover have "T / 2 ^ 53 \<le> T / 2" using T0 by simp
    ultimately show ?thesis using A B E0 by linarith
  qed
  then show "\<bar>fl64 (n + w) + s\<bar> \<le> 2 * \<bar>t\<bar> + 6 * 2 powi (- 1075)" by (simp add: T_def E_def)
  have C: "\<bar>fl64 (fl64 (n + w) + s) - (fl64 (n + w) + s)\<bar> \<le> 2 * T / 2 ^ 53 + 2 * E"
  proof -
    have "\<bar>fl64 (fl64 (n + w) + s) - (fl64 (n + w) + s)\<bar> \<le> \<bar>fl64 (n + w) + s\<bar> / 2 ^ 53 + E"
      using fl64_error [of "fl64 (n + w) + s"] by (simp add: E_def)
    also have "\<bar>fl64 (n + w) + s\<bar> / 2 ^ 53 \<le> (2 * T + 6 * E) / 2 ^ 53"
      using S by (simp add: divide_right_mono)
    also have "(2 * T + 6 * E) / 2 ^ 53 \<le> 2 * T / 2 ^ 53 + E"
      using E0 by (simp add: field_simps)
    finally show ?thesis by simp
  qed
  have "\<bar>fl64 (fl64 (n + w) + s) - t\<bar> \<le>
        \<bar>fl64 (fl64 (n + w) + s) - (fl64 (n + w) + s)\<bar>
        + \<bar>fl64 (n + w) - (n + w)\<bar> + \<bar>n + w + s - t\<bar>"
    by linarith
  with A B C have "\<bar>fl64 (fl64 (n + w) + s) - t\<bar> \<le> 4 * (T / 2 ^ 53) + 7 * E" by linarith
  moreover have "4 * (T / 2 ^ 53) = T / 2 ^ 51" by simp
  ultimately show "\<bar>fl64 (fl64 (n + w) + s) - t\<bar> \<le> \<bar>t\<bar> / 2 ^ 51 + 8 * 2 powi (- 1075)"
    using E0 by (simp add: T_def E_def)
qed

section \<open>Sums of a column\<close>

text \<open>A number that is not below zero, and one that is not above.\<close>

lemma to_float64_nonneg: "0 \<le> r \<Longrightarrow> number_le (Finite 0) (to_float64 r)"
  using fl64_nonneg [of r] by (auto simp: to_float64_def Let_def max_double_def)

lemma to_float64_nonpos: "r \<le> 0 \<Longrightarrow> number_le (to_float64 r) (Finite 0)"
  using fl64_nonpos [of r] by (auto simp: to_float64_def Let_def max_double_def)

lemma float_add_nonneg:
  "number_le (Finite 0) a \<Longrightarrow> number_le (Finite 0) b \<Longrightarrow> number_le (Finite 0) (float_add a b)"
  by (cases a; cases b) (simp_all add: to_float64_nonneg)

lemma float_add_nonpos:
  "number_le a (Finite 0) \<Longrightarrow> number_le b (Finite 0) \<Longrightarrow> number_le (float_add a b) (Finite 0)"
  by (cases a; cases b) (simp_all add: to_float64_nonpos)

lemma float_sum_nonneg:
  "float_sum xs r \<Longrightarrow> list_all (\<lambda>x. 0 \<le> x) xs \<Longrightarrow> number_le (Finite 0) r"
proof (induction rule: float_sum.induct)
  case float_sum_empty
  show ?case by simp
next
  case (float_sum_single x)
  then show ?case by simp
next
  case (float_sum_add xs a ys b zs)
  from float_sum_add.hyps(3) have "set zs = set xs \<union> set ys"
    by (metis set_mset_mset set_mset_union)
  with float_sum_add.prems have "list_all (\<lambda>x. 0 \<le> x) xs" "list_all (\<lambda>x. 0 \<le> x) ys"
    by (simp_all add: list_all_iff)
  with float_sum_add.IH show ?case by (simp add: float_add_nonneg)
qed

lemma float_sum_nonpos:
  "float_sum xs r \<Longrightarrow> list_all (\<lambda>x. x \<le> 0) xs \<Longrightarrow> number_le r (Finite 0)"
proof (induction rule: float_sum.induct)
  case float_sum_empty
  show ?case by simp
next
  case (float_sum_single x)
  then show ?case by simp
next
  case (float_sum_add xs a ys b zs)
  from float_sum_add.hyps(3) have "set zs = set xs \<union> set ys"
    by (metis set_mset_mset set_mset_union)
  with float_sum_add.prems have "list_all (\<lambda>x. x \<le> 0) xs" "list_all (\<lambda>x. x \<le> 0) ys"
    by (simp_all add: list_all_iff)
  with float_sum_add.IH show ?case by (simp add: float_add_nonpos)
qed

text \<open>Far below the largest double a rounded result is finite.\<close>

lemma to_float64_eval: "fl64 r = y \<Longrightarrow> \<bar>y\<bar> \<le> 2 ^ 1000 \<Longrightarrow> to_float64 r = Finite y"
  by (auto simp: to_float64_def Let_def max_double_def)

lemma to_float64_zero: "to_float64 0 = Finite 0"
  by (simp add: to_float64_def fl64_zero max_double_def)

lemma float_sum_Nil: "float_sum xs r \<Longrightarrow> xs = [] \<Longrightarrow> r = Finite 0"
proof (induction rule: float_sum.induct)
  case float_sum_empty
  show ?case by simp
next
  case (float_sum_single x)
  then show ?case by simp
next
  case (float_sum_add xs a ys b zs)
  then have "xs = []" "ys = []" by simp_all
  with float_sum_add.IH show ?case by (simp add: to_float64_zero)
qed

text \<open>Adding from left to right is a summation.\<close>

lemma sequential_sum_snoc:
  "sequential_sum (xs @ [x]) = float_add (sequential_sum xs) (Finite x)"
  by (simp add: sequential_sum_def)

lemma float_sum_sequential: "float_sum xs (sequential_sum xs)"
proof (induction xs rule: rev_induct)
  case Nil
  show ?case by (simp add: sequential_sum_def float_sum_empty)
next
  case (snoc x xs)
  have "float_sum (xs @ [x]) (float_add (sequential_sum xs) (Finite x))"
    by (rule float_sum_add [OF snoc.IH float_sum_single]) simp
  then show ?case by (simp only: sequential_sum_snoc)
qed

lemma summation_sequential: "summation sequential_sum"
  by (simp add: summation_def float_sum_sequential)

text \<open>The selections of \<open>compute_summary\<close>, and what they hold.\<close>

lemma map_filter_amount_gt0:
  "List.map_filter amount (select_rows df (amount_gt0 df))
     = filter (\<lambda>a. 0 < a) (List.map_filter amount df)"
  unfolding amount_gt0_def select_rows_map
  by (induction df) (auto split: option.splits)

lemma map_filter_amount_lt0:
  "List.map_filter amount (select_rows df (amount_lt0 df))
     = filter (\<lambda>a. a < 0) (List.map_filter amount df)"
  unfolding amount_lt0_def select_rows_map
  by (induction df) (auto split: option.splits)

text \<open>Within range nothing wraps.\<close>

lemma wrap64_id: "- (2 ^ 63) \<le> k \<Longrightarrow> k < 2 ^ 63 \<Longrightarrow> wrap64 k = k"
  by (simp add: wrap64_def)

lemma sum_list_floor:
  "list_all (\<lambda>a. a \<in> \<int>) xs \<Longrightarrow> of_int (sum_list (map floor xs)) = sum_list (xs :: rat list)"
  by (induction xs) simp_all

lemma sum_list_pos_nonneg: "0 \<le> sum_list (filter (\<lambda>a. 0 < a) (xs :: rat list))"
  by (induction xs) auto

lemma sum_list_neg_nonpos: "sum_list (filter (\<lambda>a. a < 0) (xs :: rat list)) \<le> 0"
  by (induction xs) auto

section \<open>The summary calculator\<close>

lemma compute_summary_float64:
  "total_income (compute_summary sum64 float64 df income)
     = sum64 (filter (\<lambda>a. 0 < a) (List.map_filter amount df))"
  "total_expenses (compute_summary sum64 float64 df income)
     = sum64 (filter (\<lambda>a. a < 0) (List.map_filter amount df))"
  "balance (compute_summary sum64 float64 df income)
     = float_add (total_income (compute_summary sum64 float64 df income))
         (total_expenses (compute_summary sum64 float64 df income))"
  by (simp_all add: compute_summary_def Let_def sum_amount_def series_sum_def scalar_add_def
        map_filter_amount_gt0 map_filter_amount_lt0)

lemma compute_summary_int64:
  "total_income (compute_summary sum64 int64 df income)
     = int64_sum (filter (\<lambda>a. 0 < a) (List.map_filter amount df))"
  "total_expenses (compute_summary sum64 int64 df income)
     = int64_sum (filter (\<lambda>a. a < 0) (List.map_filter amount df))"
  "balance (compute_summary sum64 int64 df income)
     = int64_add (total_income (compute_summary sum64 int64 df income))
         (total_expenses (compute_summary sum64 int64 df income))"
  by (simp_all add: compute_summary_def Let_def sum_amount_def series_sum_def scalar_add_def
        map_filter_amount_gt0 map_filter_amount_lt0)

lemma compute_summary_empty:
  assumes "summation sum64"
  shows "total_income (compute_summary sum64 dt [] income) = Finite 0"
    and "total_expenses (compute_summary sum64 dt [] income) = Finite 0"
    and "balance (compute_summary sum64 dt [] income) = Finite 0"
proof -
  from assms have "float_sum [] (sum64 [])" by (simp add: summation_def)
  then have z: "sum64 [] = Finite 0" by (rule float_sum_Nil) simp
  show "total_income (compute_summary sum64 dt [] income) = Finite 0"
    and "total_expenses (compute_summary sum64 dt [] income) = Finite 0"
    and "balance (compute_summary sum64 dt [] income) = Finite 0"
    by (cases dt; simp add: compute_summary_def Let_def sum_amount_def series_sum_def
          scalar_add_def select_rows_def amount_gt0_def amount_lt0_def z int64_sum_def
          wrap64_def to_float64_zero)+
qed

lemma int64_sum_exact:
  assumes "list_all (\<lambda>a. a \<in> \<int>) xs"
    and "- (2 ^ 63) \<le> sum_list xs" and "sum_list xs < 2 ^ 63"
  shows "int64_sum xs = Finite (sum_list xs)"
proof -
  define k where "k = sum_list (map floor xs)"
  have k: "of_int k = sum_list xs" unfolding k_def using assms(1) by (rule sum_list_floor)
  have "(of_int (- (2 ^ 63)) :: rat) \<le> of_int k" using assms(2) k by simp
  then have lo: "- (2 ^ 63) \<le> k" by (simp only: of_int_le_iff)
  have "(of_int k :: rat) < of_int (2 ^ 63)" using assms(3) k by simp
  then have hi: "k < 2 ^ 63" by (simp only: of_int_less_iff)
  from lo hi have "wrap64 k = k" by (rule wrap64_id)
  then show ?thesis by (simp add: int64_sum_def k_def [symmetric] k)
qed

lemma int64_add_exact:
  assumes "a \<in> \<int>" "b \<in> \<int>" "- (2 ^ 63) \<le> a + b" "a + b < 2 ^ 63"
  shows "int64_add (Finite a) (Finite b) = Finite (a + b)"
proof -
  define k where "k = \<lfloor>a\<rfloor> + \<lfloor>b\<rfloor>"
  have k: "of_int k = a + b" using assms(1,2) by (simp add: k_def)
  have "(of_int (- (2 ^ 63)) :: rat) \<le> of_int k" using assms(3) k by simp
  then have lo: "- (2 ^ 63) \<le> k" by (simp only: of_int_le_iff)
  have "(of_int k :: rat) < of_int (2 ^ 63)" using assms(4) k by simp
  then have hi: "k < 2 ^ 63" by (simp only: of_int_less_iff)
  from lo hi have "wrap64 k = k" by (rule wrap64_id)
  then show ?thesis by (simp add: k_def [symmetric] k)
qed

lemma whole_sum_list:
  "list_all (\<lambda>a. a \<in> \<int>) xs \<Longrightarrow> sum_list (xs :: rat list) \<in> \<int>"
  by (induction xs) simp_all

text \<open>
  C6, as stated: \<open>total_income\<close> equals the sum of the amounts above 0. On a float64
  column with the amounts \<open>10 ^ 16\<close> and 1 the sum of the column is \<open>10 ^ 16\<close>: the float
  addition rounds the 1 away.
\<close>

theorem summary_total_rounds:
  "total_income (compute_summary sequential_sum float64 [big_row, one_row] 0)
     = Finite 10000000000000000
   \<and> sum_list (filter (\<lambda>a. 0 < a) (List.map_filter amount [big_row, one_row]))
     = 10000000000000001"
proof -
  have r0: "to_float64 10000000000000000 = Finite 10000000000000000"
    by (rule to_float64_eval [where y = 10000000000000000]) (code_simp, simp)
  have r1: "to_float64 10000000000000001 = Finite 10000000000000000"
    by (rule to_float64_eval [where y = 10000000000000000]) (code_simp, simp)
  show ?thesis by (simp add: compute_summary_float64 sequential_sum_def r0 r1)
qed

text \<open>
  C6, amended. With the \<^verbatim>\<open>Amount\<close> column held as float64: \<open>total_income\<close> is a float sum
  of the amounts above 0 and \<open>total_expenses\<close> a float sum of the amounts below 0 (a
  missing amount counts in neither), so \<open>total_expenses \<le> 0 \<le> total_income\<close>, and
  \<open>balance\<close> is the float sum of the two. With the column held as int64, whole amounts,
  and the two exact sums within the int64 range: the totals are the exact sums and
  \<open>balance\<close> is their exact sum. On the empty frame the three are 0.
\<close>

theorem summary_totals_rounded:
  assumes "summation sum64"
  shows "float_sum (filter (\<lambda>a. 0 < a) (List.map_filter amount df))
           (total_income (compute_summary sum64 float64 df income))
       \<and> float_sum (filter (\<lambda>a. a < 0) (List.map_filter amount df))
           (total_expenses (compute_summary sum64 float64 df income))
       \<and> number_le (total_expenses (compute_summary sum64 float64 df income)) (Finite 0)
       \<and> number_le (Finite 0) (total_income (compute_summary sum64 float64 df income))
       \<and> balance (compute_summary sum64 float64 df income)
           = float_add (total_income (compute_summary sum64 float64 df income))
               (total_expenses (compute_summary sum64 float64 df income))
       \<and> (list_all (\<lambda>a. a \<in> \<int>) (List.map_filter amount df)
            \<and> sum_list (filter (\<lambda>a. 0 < a) (List.map_filter amount df)) < 2 ^ 63
            \<and> - (2 ^ 63) \<le> sum_list (filter (\<lambda>a. a < 0) (List.map_filter amount df))
          \<longrightarrow> total_income (compute_summary sum64 int64 df income)
                = Finite (sum_list (filter (\<lambda>a. 0 < a) (List.map_filter amount df)))
            \<and> total_expenses (compute_summary sum64 int64 df income)
                = Finite (sum_list (filter (\<lambda>a. a < 0) (List.map_filter amount df)))
            \<and> balance (compute_summary sum64 int64 df income)
                = Finite (sum_list (filter (\<lambda>a. 0 < a) (List.map_filter amount df))
                          + sum_list (filter (\<lambda>a. a < 0) (List.map_filter amount df))))
       \<and> total_income (compute_summary sum64 dt [] income) = Finite 0
       \<and> total_expenses (compute_summary sum64 dt [] income) = Finite 0
       \<and> balance (compute_summary sum64 dt [] income) = Finite 0"
proof -
  define pos where "pos = filter (\<lambda>a. 0 < a) (List.map_filter amount df)"
  define neg where "neg = filter (\<lambda>a. a < 0) (List.map_filter amount df)"
  from assms have fp: "float_sum pos (sum64 pos)" and fn: "float_sum neg (sum64 neg)"
    by (simp_all add: summation_def)
  have "list_all (\<lambda>x. 0 \<le> x) pos" by (simp add: pos_def list_all_iff)
  with fp have sp: "number_le (Finite 0) (sum64 pos)" by (rule float_sum_nonneg)
  have "list_all (\<lambda>x. x \<le> 0) neg" by (simp add: neg_def list_all_iff)
  with fn have sn: "number_le (sum64 neg) (Finite 0)" by (rule float_sum_nonpos)
  have whole: "total_income (compute_summary sum64 int64 df income) = Finite (sum_list pos)
      \<and> total_expenses (compute_summary sum64 int64 df income) = Finite (sum_list neg)
      \<and> balance (compute_summary sum64 int64 df income) = Finite (sum_list pos + sum_list neg)"
    if w: "list_all (\<lambda>a. a \<in> \<int>) (List.map_filter amount df)"
      and hi: "sum_list pos < 2 ^ 63" and lo: "- (2 ^ 63) \<le> sum_list neg"
  proof -
    from w have wp: "list_all (\<lambda>a. a \<in> \<int>) pos"
      and wn: "list_all (\<lambda>a. a \<in> \<int>) neg"
      by (simp_all add: pos_def neg_def list_all_iff)
    have p0: "0 \<le> sum_list pos" unfolding pos_def by (rule sum_list_pos_nonneg)
    have n0: "sum_list neg \<le> 0" unfolding neg_def by (rule sum_list_neg_nonpos)
    have ip: "int64_sum pos = Finite (sum_list pos)"
      using wp _ hi by (rule int64_sum_exact) (use p0 in simp)
    have "sum_list neg < 2 ^ 63" using n0 by (rule le_less_trans) simp
    with wn lo have "int64_sum neg = Finite (sum_list neg)" by (rule int64_sum_exact)
    moreover have "int64_add (Finite (sum_list pos)) (Finite (sum_list neg))
        = Finite (sum_list pos + sum_list neg)"
    proof (rule int64_add_exact)
      show "sum_list pos \<in> \<int>" using wp by (rule whole_sum_list)
      show "sum_list neg \<in> \<int>" using wn by (rule whole_sum_list)
      show "- (2 ^ 63) \<le> sum_list pos + sum_list neg" using lo p0 by linarith
      show "sum_list pos + sum_list neg < 2 ^ 63" using hi n0 by linarith
    qed
    ultimately show ?thesis
      using ip by (simp add: compute_summary_int64 pos_def [symmetric] neg_def [symmetric])
  qed
  from fp fn sp sn whole compute_summary_empty [OF assms, of dt income]
  show ?thesis
    by (simp add: compute_summary_float64 pos_def [symmetric] neg_def [symmetric])
qed

theorem summary_totals_rounded_witness:
  "summation sequential_sum
   \<and> float_sum [3500] (Finite 3500)
   \<and> total_income (compute_summary sequential_sum float64
        [old_income_row, groceries_row, undescribed_row] 4000) = Finite 3500
   \<and> number_le (Finite 0) (Finite 3500)
   \<and> total_income (compute_summary sequential_sum int64
        [old_income_row, groceries_row, undescribed_row] 4000) = Finite 3500
   \<and> total_expenses (compute_summary sequential_sum int64
        [old_income_row, groceries_row, undescribed_row] 4000) = Finite (- 57)
   \<and> balance (compute_summary sequential_sum int64
        [old_income_row, groceries_row, undescribed_row] 4000) = Finite 3443"
proof -
  have r: "to_float64 3500 = Finite 3500"
    by (rule to_float64_eval [where y = 3500]) (code_simp, simp)
  have t: "total_income (compute_summary sequential_sum float64
        [old_income_row, groceries_row, undescribed_row] 4000) = Finite 3500"
    by (simp add: compute_summary_float64 sequential_sum_def r)
  from summary_totals_rounded [OF summation_sequential,
      of "[old_income_row, groceries_row, undescribed_row]" 4000 float64]
    summation_sequential t
  show ?thesis by simp
qed

text \<open>
  On an int64 column the sum wraps: two income rows of \<open>2 ^ 62\<close> give a negative
  \<open>total_income\<close>.
\<close>

lemma summary_int64_wraps:
  "total_income (compute_summary sum64 int64 [huge_row, huge_row] income)
     = Finite (- 9223372036854775808)"
  by (simp add: compute_summary_int64 int64_sum_def wrap64_def)

lemma recommended_compute_summary:
  "recommended (compute_summary sum64 dt df income)
     = \<lparr>needs = float_mul income (fl64 0.50), wants = float_mul income (fl64 0.30),
        savings = float_mul income (fl64 0.20)\<rparr>"
  by (simp add: compute_summary_def Let_def)

text \<open>
  C7, as stated: the allocations are 0.50, 0.30 and 0.20 of the target income and add
  up to it. For the income 3.35 the three products are rounded: \<open>wants\<close> is not 0.30 of
  the income, the three allocations do not add up to the income, and their float sum,
  which is what the program or a test of it computes, is another double than the income.
\<close>

theorem allocations_do_not_add_up:
  "recommended (compute_summary sequential_sum float64 [] (fl64 3.35))
     = \<lparr>needs = Finite (7543529375845581 / 4503599627370496),
        wants = Finite (1131529406376837 / 1125899906842624),
        savings = Finite (6034823500676465 / 9007199254740992)\<rparr>
   \<and> 7543529375845581 / 4503599627370496 + 1131529406376837 / 1125899906842624
       + 6034823500676465 / 9007199254740992 \<noteq> fl64 3.35
   \<and> float_add
        (float_add (Finite (7543529375845581 / 4503599627370496))
           (Finite (1131529406376837 / 1125899906842624)))
        (Finite (6034823500676465 / 9007199254740992))
       \<noteq> Finite (fl64 3.35)
   \<and> 1131529406376837 / 1125899906842624 \<noteq> fl64 3.35 * 0.30"
proof -
  have m1: "float_mul (fl64 3.35) (fl64 0.50) = Finite (7543529375845581 / 4503599627370496)"
    unfolding float_mul_def
    by (rule to_float64_eval [where y = "7543529375845581 / 4503599627370496"]) (code_simp, simp)
  have m2: "float_mul (fl64 3.35) (fl64 0.30) = Finite (1131529406376837 / 1125899906842624)"
    unfolding float_mul_def
    by (rule to_float64_eval [where y = "1131529406376837 / 1125899906842624"]) (code_simp, simp)
  have m3: "float_mul (fl64 3.35) (fl64 0.20) = Finite (6034823500676465 / 9007199254740992)"
    unfolding float_mul_def
    by (rule to_float64_eval [where y = "6034823500676465 / 9007199254740992"]) (code_simp, simp)
  have rec: "recommended (compute_summary sequential_sum float64 [] (fl64 3.35))
     = \<lparr>needs = Finite (7543529375845581 / 4503599627370496),
        wants = Finite (1131529406376837 / 1125899906842624),
        savings = Finite (6034823500676465 / 9007199254740992)\<rparr>"
    by (simp only: recommended_compute_summary m1 m2 m3)
  have exact: "7543529375845581 / 4503599627370496 + 1131529406376837 / 1125899906842624
       + 6034823500676465 / 9007199254740992 \<noteq> fl64 3.35"
    by code_simp
  have s1: "float_add (Finite (7543529375845581 / 4503599627370496))
           (Finite (1131529406376837 / 1125899906842624))
        = Finite (377176468792279 / 140737488355328)"
    unfolding float_add.simps
    by (rule to_float64_eval [where y = "377176468792279 / 140737488355328"]) (code_simp, simp)
  have s2: "float_add (Finite (377176468792279 / 140737488355328))
           (Finite (6034823500676465 / 9007199254740992))
        = Finite (1885882343961395 / 562949953421312)"
    unfolding float_add.simps
    by (rule to_float64_eval [where y = "1885882343961395 / 562949953421312"]) (code_simp, simp)
  have "1885882343961395 / 562949953421312 \<noteq> fl64 3.35" by code_simp
  then have float: "float_add
        (float_add (Finite (7543529375845581 / 4503599627370496))
           (Finite (1131529406376837 / 1125899906842624)))
        (Finite (6034823500676465 / 9007199254740992))
       \<noteq> Finite (fl64 3.35)"
    unfolding s1 s2 by simp
  have share: "1131529406376837 / 1125899906842624 \<noteq> fl64 3.35 * 0.30" by code_simp
  from rec exact float share show ?thesis by (intro conjI)
qed

text \<open>
  C7, amended. For a finite target income the allocations are the float products of the
  income with the doubles nearest to 0.50, 0.30 and 0.20; they depend on the income alone,
  not on the frame. Each is within \<open>\<bar>income\<bar> / 2 ^ 53 + 2 powi (- 1075)\<close> of its exact
  share, and they add up to the income within floating-point tolerance: their exact sum is
  within \<open>\<bar>income\<bar> / 2 ^ 53 + 3 * 2 powi (- 1075)\<close> of it and, for an income of at most
  \<open>2 ^ 1023\<close>, their float sum within \<open>\<bar>income\<bar> / 2 ^ 51 + 8 * 2 powi (- 1075)\<close>.
\<close>

theorem allocations_within_tolerance:
  assumes "\<bar>income\<bar> \<le> max_double"
  shows "(\<exists>n w s.
            recommended (compute_summary sum64 dt df income)
              = \<lparr>needs = Finite n, wants = Finite w, savings = Finite s\<rparr>
          \<and> n = fl64 (income * fl64 0.50)
          \<and> w = fl64 (income * fl64 0.30)
          \<and> s = fl64 (income * fl64 0.20)
          \<and> \<bar>n - income * 0.50\<bar> \<le> \<bar>income\<bar> / 2 ^ 53 + 2 powi (- 1075)
          \<and> \<bar>w - income * 0.30\<bar> \<le> \<bar>income\<bar> / 2 ^ 53 + 2 powi (- 1075)
          \<and> \<bar>s - income * 0.20\<bar> \<le> \<bar>income\<bar> / 2 ^ 53 + 2 powi (- 1075)
          \<and> \<bar>n + w + s - income\<bar> \<le> \<bar>income\<bar> / 2 ^ 53 + 3 * 2 powi (- 1075)
          \<and> (\<bar>income\<bar> \<le> 2 ^ 1023 \<longrightarrow>
               (\<exists>r. float_add (float_add (Finite n) (Finite w)) (Finite s) = Finite r
                  \<and> \<bar>r - income\<bar> \<le> \<bar>income\<bar> / 2 ^ 51 + 8 * 2 powi (- 1075))))
       \<and> recommended (compute_summary sum64 dt df income)
           = recommended (compute_summary sum64' dt' df' income)"
proof -
  define n where "n = fl64 (income * fl64 0.50)"
  define w where "w = fl64 (income * fl64 0.30)"
  define s where "s = fl64 (income * fl64 0.20)"
  define E :: rat where "E = 2 powi (- 1075)"
  define T where "T = \<bar>income\<bar>"
  have E0: "0 \<le> E" and E1: "E \<le> 1" by (simp_all add: E_def power_int_minus_divide)
  have T0: "0 \<le> T" by (simp add: T_def)
  note e = allocation_errors [of income, folded n_def w_def s_def E_def T_def]
  note a = allocation_sum_exact [of income, folded n_def w_def s_def E_def T_def]
  note f = allocation_sum_float [of income, folded n_def w_def s_def E_def T_def]
  \<comment> \<open>the three products are finite\<close>
  have fn: "\<bar>n\<bar> \<le> max_double"
    unfolding n_def c50 using assms by (rule product_finite) simp_all
  have fw: "\<bar>w\<bar> \<le> max_double"
    unfolding w_def c30 using assms by (rule product_finite) simp_all
  have fs: "\<bar>s\<bar> \<le> max_double"
    unfolding s_def c20 using assms by (rule product_finite) simp_all
  have rec: "recommended (compute_summary sum64 dt df income)
      = \<lparr>needs = Finite n, wants = Finite w, savings = Finite s\<rparr>"
    unfolding recommended_compute_summary float_mul_def n_def w_def s_def
    using fn fw fs
    by (simp only: to_float64_Finite n_def w_def s_def)
  \<comment> \<open>each allocation against its exact share\<close>
  have en: "\<bar>n - income * 0.50\<bar> \<le> T / 2 ^ 53 + E"
  proof -
    have "T * (1 / 2) / 2 ^ 53 \<le> T / 2 ^ 53" using T0 by simp
    moreover have "income * 0.50 = income * (1 / 2)" by simp
    ultimately show ?thesis using e(1) by linarith
  qed
  have ew: "\<bar>w - income * 0.30\<bar> \<le> T / 2 ^ 53 + E"
  proof -
    have "income * (5404319552844595 / 18014398509481984) - income * 0.30
            = income * (- 1 / 90071992547409920)"
      by (simp add: algebra_simps)
    then have "\<bar>income * (5404319552844595 / 18014398509481984) - income * 0.30\<bar>
            = T * (1 / 90071992547409920)"
      by (simp add: abs_mult T_def)
    moreover have "T * (5404319552844595 / 18014398509481984) / 2 ^ 53
                    + T * (1 / 90071992547409920) \<le> T / 2 ^ 53"
      using T0 by (simp add: field_simps)
    ultimately show ?thesis using e(2) by linarith
  qed
  have es: "\<bar>s - income * 0.20\<bar> \<le> T / 2 ^ 53 + E"
  proof -
    have "income * (3602879701896397 / 18014398509481984) - income * 0.20
            = income * (1 / 90071992547409920)"
      by (simp add: algebra_simps)
    then have "\<bar>income * (3602879701896397 / 18014398509481984) - income * 0.20\<bar>
            = T * (1 / 90071992547409920)"
      by (simp add: abs_mult T_def)
    moreover have "T * (3602879701896397 / 18014398509481984) / 2 ^ 53
                    + T * (1 / 90071992547409920) \<le> T / 2 ^ 53"
      using T0 by (simp add: field_simps)
    ultimately show ?thesis using e(3) by linarith
  qed
  \<comment> \<open>the sum as the program would add it\<close>
  have fl: "\<exists>r. float_add (float_add (Finite n) (Finite w)) (Finite s) = Finite r
              \<and> \<bar>r - income\<bar> \<le> T / 2 ^ 51 + 8 * E"
    if small: "T \<le> 2 ^ 1023"
  proof -
    have m: "(2::rat) ^ 1023 + 2 ^ 1023 / 2 ^ 51 + 11 \<le> max_double"
      by (simp add: max_double_def)
    have "\<bar>fl64 (n + w)\<bar> \<le> \<bar>n + w\<bar> + (\<bar>n + w\<bar> / 2 ^ 53 + E)"
      unfolding E_def by (rule fl64_abs_le)
    moreover have "\<bar>n + w\<bar> / 2 ^ 53 \<le> (T + 2 * E) / 2 ^ 53"
      using f(1) by (simp add: divide_right_mono)
    moreover have "(T + 2 * E) / 2 ^ 53 \<le> T / 2 ^ 51 + E"
      using T0 E0 by (simp add: field_simps)
    ultimately have "\<bar>fl64 (n + w)\<bar> \<le> T + T / 2 ^ 51 + 4 * E" using f(1) by linarith
    moreover have "T / 2 ^ 51 \<le> 2 ^ 1023 / 2 ^ 51" using small by (simp add: divide_right_mono)
    ultimately have "\<bar>fl64 (n + w)\<bar> \<le> max_double" using m small E1 by linarith
    then have s1: "float_add (Finite n) (Finite w) = Finite (fl64 (n + w))"
      by (simp add: to_float64_Finite)
    have "\<bar>fl64 (fl64 (n + w) + s)\<bar> \<le> T + (T / 2 ^ 51 + 8 * E)"
      using f(3) unfolding T_def by linarith
    moreover have "T / 2 ^ 51 \<le> 2 ^ 1023 / 2 ^ 51" using small by (simp add: divide_right_mono)
    ultimately have "\<bar>fl64 (fl64 (n + w) + s)\<bar> \<le> max_double" using m small E1 by linarith
    then have s2: "float_add (Finite (fl64 (n + w))) (Finite s) = Finite (fl64 (fl64 (n + w) + s))"
      by (simp add: to_float64_Finite)
    from s1 s2 f(3) show ?thesis by simp
  qed
  have indep: "recommended (compute_summary sum64 dt df income)
           = recommended (compute_summary sum64' dt' df' income)"
    by (simp only: recommended_compute_summary)
  from rec en ew es a fl indep show ?thesis
    unfolding n_def [symmetric] w_def [symmetric] s_def [symmetric] T_def E_def
    by blast
qed

theorem allocations_within_tolerance_witness:
  "\<bar>4000\<bar> \<le> max_double
   \<and> recommended (compute_summary sequential_sum float64 [groceries_row] 4000)
       = \<lparr>needs = Finite 2000, wants = Finite 1200, savings = Finite 800\<rparr>
   \<and> \<bar>2000 + 1200 + 800 - (4000::rat)\<bar> \<le> \<bar>4000\<bar> / 2 ^ 53 + 3 * 2 powi (- 1075)
   \<and> float_add (float_add (Finite 2000) (Finite 1200)) (Finite 800) = Finite 4000"
proof -
  have h: "\<bar>4000\<bar> \<le> max_double" by (simp add: max_double_def)
  have v: "fl64 (4000 * fl64 0.50) = 2000" "fl64 (4000 * fl64 0.30) = 1200"
    "fl64 (4000 * fl64 0.20) = 800"
    by code_simp+
  have s1: "float_add (Finite 2000) (Finite 1200) = Finite 3200"
    unfolding float_add.simps
    by (rule to_float64_eval [where y = 3200]) (code_simp, simp)
  have s2: "float_add (Finite 3200) (Finite 800) = Finite 4000"
    unfolding float_add.simps
    by (rule to_float64_eval [where y = 4000]) (code_simp, simp)
  from allocations_within_tolerance [OF h, of sequential_sum float64 "[groceries_row]"]
  obtain n w s where
    "recommended (compute_summary sequential_sum float64 [groceries_row] 4000)
       = \<lparr>needs = Finite n, wants = Finite w, savings = Finite s\<rparr>"
    and "n = fl64 (4000 * fl64 0.50)" and "w = fl64 (4000 * fl64 0.30)"
    and "s = fl64 (4000 * fl64 0.20)"
    and "\<bar>n + w + s - 4000\<bar> \<le> \<bar>4000\<bar> / 2 ^ 53 + 3 * 2 powi (- 1075)"
    by blast
  then have "recommended (compute_summary sequential_sum float64 [groceries_row] 4000)
       = \<lparr>needs = Finite 2000, wants = Finite 1200, savings = Finite 800\<rparr>"
    and "\<bar>2000 + 1200 + 800 - (4000::rat)\<bar> \<le> \<bar>4000\<bar> / 2 ^ 53 + 3 * 2 powi (- 1075)"
    by (simp_all only: v)
  with h s1 s2 show ?thesis by (simp only: simp_thms)
qed

end
